theory Spec2Isabelle
  imports Main "HOL-Library.Sublist"
begin

text \<open>
  The class \<^verbatim>\<open>DocumentScraper\<close> of \<^verbatim>\<open>backend/pdf2emb_nlp/scraper.py\<close>: it reads an
  optional JSON dictionary of replacements, extracts the text of the pages of one PDF
  file, cleans each page and puts the pages into a data frame of one column. The
  methods are functions of the environment, the object and the state of the process,
  returning the result or the exception raised, and the new state.
\<close>

section \<open>Python strings\<close>

text \<open>
  A Python \<^verbatim>\<open>str\<close> is a sequence of Unicode code points, so a string is a list of
  natural numbers; \<open>str\<close> reads an ASCII literal. The operations below are the
  built-in methods that \<^verbatim>\<open>scraper.py\<close> calls on strings.
\<close>

type_synonym pystr = "nat list"

type_synonym bytes = "nat list"

definition str :: "string \<Rightarrow> pystr" where
  "str s = map of_char s"

text \<open>
  \<^verbatim>\<open>str.isspace\<close> on one code point: the code points that CPython classifies as
  whitespace (U+0009..U+000D, U+001C..U+0020, U+0085, U+00A0, U+1680, U+2000..U+200A,
  U+2028, U+2029, U+202F, U+205F, U+3000).
\<close>

definition isspace :: "nat \<Rightarrow> bool" where
  "isspace c \<longleftrightarrow>
     (9 \<le> c \<and> c \<le> 13) \<or> (28 \<le> c \<and> c \<le> 32) \<or> c = 133 \<or> c = 160 \<or> c = 5760 \<or>
     (8192 \<le> c \<and> c \<le> 8202) \<or> c = 8232 \<or> c = 8233 \<or> c = 8239 \<or> c = 8287 \<or>
     c = 12288"

text \<open>
  \<^verbatim>\<open>text.strip()\<close>: the leading whitespace is skipped from the left, then the
  trailing whitespace from the right.
\<close>

definition strip :: "pystr \<Rightarrow> pystr" where
  "strip text = rev (dropWhile isspace (rev (dropWhile isspace text)))"

text \<open>
  \<^verbatim>\<open>sub in text\<close>: \<open>sub\<close> occurs in \<open>text\<close> as a contiguous substring. The empty
  string occurs in every string.
\<close>

fun contains :: "pystr \<Rightarrow> pystr \<Rightarrow> bool" where
  "contains [] sub = (sub = [])"
| "contains (c # cs) sub = (prefix sub (c # cs) \<or> contains cs sub)"

text \<open>
  \<^verbatim>\<open>text.replace(old, new)\<close> with a non-empty \<open>old = k # ks\<close>: the text is scanned
  from the left; at an occurrence of \<open>old\<close> the replacement is written and the scan
  resumes behind the occurrence (occurrences do not overlap, and the replacement is
  not scanned again); otherwise one character is copied.
\<close>

fun replace_nonempty :: "pystr \<Rightarrow> nat \<Rightarrow> pystr \<Rightarrow> pystr \<Rightarrow> pystr" where
  "replace_nonempty [] k ks new = []"
| "replace_nonempty (c # cs) k ks new =
     (if c = k \<and> prefix ks cs
      then new @ replace_nonempty (drop (length ks) cs) k ks new
      else c # replace_nonempty cs k ks new)"

text \<open>
  \<^verbatim>\<open>text.replace(old, new)\<close>. With an empty \<open>old\<close> Python writes \<open>new\<close> before every
  character and at the end: \<^verbatim>\<open>'abc'.replace('', '-') == '-a-b-c-'\<close>.
\<close>

definition replace :: "pystr \<Rightarrow> pystr \<Rightarrow> pystr \<Rightarrow> pystr" where
  "replace text old new =
     (case old of
        [] \<Rightarrow> new @ concat (map (\<lambda>c. c # new) text)
      | k # ks \<Rightarrow> replace_nonempty text k ks new)"


section \<open>The environment: files, parsers, logging\<close>

text \<open>
  What \<^verbatim>\<open>scraper.py\<close> obtains from outside is a parameter of the model:
  \<^item> \<open>fs\<close>: the local file system as \<^verbatim>\<open>os.path.exists\<close> and \<^verbatim>\<open>open\<close> see it. A path is
    absent, or holds a readable file, or exists without being readable as a file
    (a directory, a file without permission);
  \<^item> \<open>s3_objects\<close>: the objects of the S3 storage, as the imported module \<^verbatim>\<open>s3fs\<close> would read
    them. The source imports \<^verbatim>\<open>s3fs\<close> and never calls it, so no function below reads
    this field;
  \<^item> \<open>slate3k_PDF\<close>: the constructor \<^verbatim>\<open>slate3k.PDF\<close> on the bytes of a file. \<open>None\<close>:
    the parser raises (corrupt or unsupported document). Otherwise a reader with what
    \<^verbatim>\<open>len\<close> reports and the page texts that iterating it yields;
  \<^item> \<open>json_load\<close>: \<^verbatim>\<open>json.load\<close> on the content of a file. \<open>None\<close>: the content
    cannot be decoded. Otherwise the flat object of string pairs, in the order of the
    dictionary's items (\<^verbatim>\<open>Dict[str, str]\<close> as the source annotates it).
\<close>

type_synonym mapping = "(pystr \<times> pystr) list"

datatype fs_entry = File bytes | NoAccess

record pdf_reader =
  pdf_len :: nat
  pdf_pages :: "pystr list"

record world =
  fs :: "pystr \<Rightarrow> fs_entry option"
  s3_objects :: "pystr \<Rightarrow> bytes option"
  slate3k_PDF :: "bytes \<Rightarrow> pdf_reader option"
  json_load :: "bytes \<Rightarrow> mapping option"

text \<open>
  The exceptions, under the names the specification gives them:
  \<^item> \<open>ConfigFormatError\<close>: the \<^verbatim>\<open>AssertionError\<close> of the \<^verbatim>\<open>assert\<close> in \<^verbatim>\<open>_read_config\<close>;
  \<^item> \<open>ConfigParseError\<close>: what \<^verbatim>\<open>json.load\<close> raises;
  \<^item> \<open>ResourceNotFoundError\<close>: the \<^verbatim>\<open>FileNotFoundError\<close> of \<^verbatim>\<open>open\<close>;
  \<^item> \<open>ResourceAccessError\<close>: any other \<^verbatim>\<open>OSError\<close> of \<^verbatim>\<open>open\<close>;
  \<^item> \<open>DocumentParseError\<close>: what \<^verbatim>\<open>slate3k.PDF\<close> raises.
\<close>

datatype error =
  ConfigFormatError
| ConfigParseError
| ResourceNotFoundError
| ResourceAccessError
| DocumentParseError

text \<open>
  The state of the process that the code changes: the records handed to the module's
  logger, and the file handles that are open (each named by its path).
\<close>

datatype level = DEBUG | INFO | WARNING

datatype message =
  NoJsonProvided
| ReadingJson pystr
| ReadingPage nat pystr
| NotScraped pystr
| StartingScraping

record process =
  log_records :: "(level \<times> message) list"
  open_files :: "pystr list"

definition logger :: "level \<Rightarrow> message \<Rightarrow> process \<Rightarrow> process" where
  "logger l m st = st\<lparr>log_records := log_records st @ [(l, m)]\<rparr>"

definition os_path_exists :: "world \<Rightarrow> pystr \<Rightarrow> bool" where
  "os_path_exists w p = (case fs w p of None \<Rightarrow> False | Some e \<Rightarrow> True)"

definition open_file :: "world \<Rightarrow> pystr \<Rightarrow> process \<Rightarrow> (error + bytes) \<times> process" where
  "open_file w p st =
     (case fs w p of
        None \<Rightarrow> (Inl ResourceNotFoundError, st)
      | Some NoAccess \<Rightarrow> (Inl ResourceAccessError, st)
      | Some (File b) \<Rightarrow> (Inr b, st\<lparr>open_files := open_files st @ [p]\<rparr>))"

definition close_file :: "pystr \<Rightarrow> process \<Rightarrow> process" where
  "close_file p st = st\<lparr>open_files := remove1 p (open_files st)\<rparr>"


section \<open>Series and data frames\<close>

text \<open>
  A \<^verbatim>\<open>pd.Series\<close> with the default index is its name and its values. A
  \<^verbatim>\<open>pd.DataFrame\<close> with the default index is the list of its columns, each a label and
  its cells; the cell \<open>None\<close> is the NaN that fills a column shorter than the frame.
\<close>

record Series =
  name :: "pystr option"
  vals :: "pystr list"

type_synonym DataFrame = "(pystr option \<times> pystr option list) list"

definition pd_Series :: "pystr list \<Rightarrow> Series" where
  "pd_Series xs = \<lparr>name = None, vals = xs\<rparr>"

definition pd_DataFrame :: DataFrame where
  "pd_DataFrame = []"

text \<open>
  \<^verbatim>\<open>a.append(b, ignore_index=True)\<close>: the values of \<open>b\<close> behind those of \<open>a\<close>, as in
  the versions of pandas that have \<^verbatim>\<open>Series.append\<close> (before 2.0).
\<close>

definition append :: "Series \<Rightarrow> Series \<Rightarrow> Series" where
  "append a b = \<lparr>name = (if name a = name b then name a else None), vals = vals a @ vals b\<rparr>"

definition rename :: "Series \<Rightarrow> pystr \<Rightarrow> Series" where
  "rename a n = a\<lparr>name := Some n\<rparr>"

definition nrows :: "DataFrame \<Rightarrow> nat" where
  "nrows df = fold max (map (\<lambda>col. length (snd col)) df) 0"

definition pad :: "nat \<Rightarrow> pystr option list \<Rightarrow> pystr option list" where
  "pad n cells = cells @ replicate (n - length cells) None"

text \<open>
  \<^verbatim>\<open>pd.concat([df, series], axis=1)\<close>: the series becomes one more column, and all
  columns are filled to the same number of rows.
\<close>

definition pd_concat :: "DataFrame \<Rightarrow> Series \<Rightarrow> DataFrame" where
  "pd_concat df series =
     (let n = max (nrows df) (length (vals series))
      in map (\<lambda>col. (fst col, pad n (snd col))) df @
         [(name series, pad n (map Some (vals series)))])"


section \<open>The class \<^verbatim>\<open>DocumentScraper\<close>\<close>

record DocumentScraper =
  path :: pystr
  open_json :: mapping
  from_s3_bucket :: bool

text \<open>\<^verbatim>\<open>_read_config\<close>. The \<^verbatim>\<open>with\<close> block closes the file on both of its exits.\<close>

definition read_config :: "world \<Rightarrow> pystr option \<Rightarrow> process \<Rightarrow> (error + mapping) \<times> process" where
  "read_config w json_filename st =
     (case json_filename of
        None \<Rightarrow> (Inr [], logger WARNING NoJsonProvided st)
      | Some filename \<Rightarrow>
          (let st1 = logger INFO (ReadingJson filename) st in
           if contains filename (str ''.json'') then
             (case open_file w filename st1 of
                (Inl e, st2) \<Rightarrow> (Inl e, st2)
              | (Inr content, st2) \<Rightarrow>
                  (case json_load w content of
                     None \<Rightarrow> (Inl ConfigParseError, close_file filename st2)
                   | Some d \<Rightarrow> (Inr d, close_file filename st2)))
           else (Inl ConfigFormatError, st1)))"

text \<open>\<^verbatim>\<open>__init__\<close>: the three attributes; the configuration is read once, here.\<close>

definition init ::
  "world \<Rightarrow> pystr \<Rightarrow> pystr option \<Rightarrow> bool \<Rightarrow> process \<Rightarrow> (error + DocumentScraper) \<times> process"
where
  "init w p json_filename from_s3 st =
     (case read_config w json_filename st of
        (Inl e, st1) \<Rightarrow> (Inl e, st1)
      | (Inr d, st1) \<Rightarrow> (Inr \<lparr>path = p, open_json = d, from_s3_bucket = from_s3\<rparr>, st1))"

text \<open>
  \<^verbatim>\<open>_clean_text\<close>: the loop over \<^verbatim>\<open>self.open_json.items()\<close>, each pass replacing in the
  text that the pass before left, and the final \<^verbatim>\<open>strip\<close>.
\<close>

fun clean_loop :: "mapping \<Rightarrow> pystr \<Rightarrow> pystr" where
  "clean_loop [] text = text"
| "clean_loop ((k, v) # items) text = clean_loop items (replace text k v)"

definition clean_text :: "DocumentScraper \<Rightarrow> pystr \<Rightarrow> pystr" where
  "clean_text self text = strip (clean_loop (open_json self) text)"

text \<open>
  The loop of \<^verbatim>\<open>_text_to_series_of_pages\<close> over \<^verbatim>\<open>enumerate(pdf_reader)\<close>: \<open>i\<close> is the
  index of the next page, \<open>document_series\<close> the series built so far.
\<close>

fun pages_loop ::
  "DocumentScraper \<Rightarrow> pystr \<Rightarrow> nat \<Rightarrow> pystr list \<Rightarrow> Series \<Rightarrow> process \<Rightarrow> Series \<times> process"
where
  "pages_loop self pdf_name i [] document_series st = (document_series, st)"
| "pages_loop self pdf_name i (page # rest) document_series st =
     (let st1 = logger DEBUG (ReadingPage (i + 1) pdf_name) st;
          page_text = clean_text self page;
          page_series = pd_Series [page_text]
      in pages_loop self pdf_name (i + 1) rest (append document_series page_series) st1)"

text \<open>
  \<^verbatim>\<open>_text_to_series_of_pages\<close>. The file is opened with the built-in \<^verbatim>\<open>open\<close> at
  \<^verbatim>\<open>self.path\<close>; \<^verbatim>\<open>pdf.close()\<close> is the last statement before the \<^verbatim>\<open>return\<close>, so an
  exception of \<^verbatim>\<open>slate3k.PDF\<close> leaves the function before it.
\<close>

definition text_to_series_of_pages ::
  "world \<Rightarrow> DocumentScraper \<Rightarrow> pystr \<Rightarrow> process \<Rightarrow> (error + Series \<times> nat) \<times> process"
where
  "text_to_series_of_pages w self pdf_name st =
     (case open_file w (path self) st of
        (Inl e, st1) \<Rightarrow> (Inl e, st1)
      | (Inr pdf, st1) \<Rightarrow>
          (case slate3k_PDF w pdf of
             None \<Rightarrow> (Inl DocumentParseError, st1)
           | Some reader \<Rightarrow>
               (let num_pages = pdf_len reader;
                    (document_series, st2) =
                       pages_loop self pdf_name 0 (pdf_pages reader) (pd_Series []) st1
                in (Inr (document_series, num_pages), close_file (path self) st2))))"

text \<open>
  \<^verbatim>\<open>document_corpus_to_pandas_df\<close>. What \<^verbatim>\<open>_text_to_series_of_pages\<close> returns is always
  a \<^verbatim>\<open>pd.Series\<close>, so the \<^verbatim>\<open>isinstance\<close> test holds and the column is always added; an
  exception of the call is not caught.
\<close>

definition document_corpus_to_pandas_df ::
  "world \<Rightarrow> DocumentScraper \<Rightarrow> process \<Rightarrow> (error + DataFrame) \<times> process"
where
  "document_corpus_to_pandas_df w self st =
     (let df = pd_DataFrame in
      if \<not> os_path_exists w (path self) then
        (Inr df, logger WARNING (NotScraped (path self)) st)
      else
        (let st1 = logger INFO StartingScraping st;
             file = path self
         in case text_to_series_of_pages w self file st1 of
              (Inl e, st2) \<Rightarrow> (Inl e, st2)
            | (Inr (series, num_pages), st2) \<Rightarrow>
                (Inr (pd_concat df (rename series (replace file (str ''.pdf'') []))), st2)))"


section \<open>The specification's vocabulary\<close>

text \<open>
  \<open>applyReplacements\<close> and \<open>trim\<close> are written from the specification's words, to be
  compared with \<^const>\<open>clean_text\<close>: the pairs of the mapping applied one after the
  other, in the mapping's order, as literal replacements; and the text without its
  trailing and its leading whitespace.
\<close>

definition applyReplacements :: "pystr \<Rightarrow> mapping \<Rightarrow> pystr" where
  "applyReplacements T M = foldl (\<lambda>t kv. replace t (fst kv) (snd kv)) T M"

definition trim :: "pystr \<Rightarrow> pystr" where
  "trim T = dropWhile isspace (rev (dropWhile isspace (rev T)))"

text \<open>
  A replacement cycle, read from the specification's words: a pair \<open>feeds\<close> another
  when the text it writes contains the other's find-string, so that the other pair
  would rewrite what the first wrote. A cycle is a chain of such steps from a pair back
  to itself (a pair whose replacement contains its own find-string is the cycle of
  length one). A chain without repetition has at most as many steps as the mapping has
  pairs, which bounds the search.
\<close>

definition feeds :: "pystr \<times> pystr \<Rightarrow> pystr \<times> pystr \<Rightarrow> bool" where
  "feeds p q = contains (snd p) (fst q)"

fun reaches :: "nat \<Rightarrow> mapping \<Rightarrow> pystr \<times> pystr \<Rightarrow> pystr \<times> pystr \<Rightarrow> bool" where
  "reaches 0 M p q = feeds p q"
| "reaches (Suc n) M p q = (feeds p q \<or> list_ex (\<lambda>r. feeds p r \<and> reaches n M r q) M)"

definition no_replacement_cycles :: "mapping \<Rightarrow> bool" where
  "no_replacement_cycles M = list_all (\<lambda>p. \<not> reaches (length M) M p p) M"

text \<open>
  The document identifier as the specification's data model and the class docstring
  word it: the base filename (what follows the last \<^verbatim>\<open>/\<close>, code point 47) without the
  \<^verbatim>\<open>.pdf\<close> extension.
\<close>

definition basename :: "pystr \<Rightarrow> pystr" where
  "basename p = rev (takeWhile (\<lambda>c. c \<noteq> 47) (rev p))"

definition document_identifier :: "pystr \<Rightarrow> pystr" where
  "document_identifier p =
     (let b = basename p
      in if suffix (str ''.pdf'') b then take (length b - 4) b else b)"

text \<open>
  A name that indicates a JSON-typed resource, read from the specification's words and
  from the message of the assertion in \<^verbatim>\<open>_read_config\<close>, which speaks of a name that
  does not correspond to a \<^verbatim>\<open>.json\<close> file: the name of a \<^verbatim>\<open>.json\<close> file, one that ends in
  \<^verbatim>\<open>.json\<close>.
\<close>

definition indicates_json :: "pystr \<Rightarrow> bool" where
  "indicates_json filename = suffix (str ''.json'') filename"


section \<open>A concrete environment\<close>

text \<open>
  The inputs at which the theorems below are evaluated. The local file system holds a
  two-page document under \<^verbatim>\<open>docs/report.pdf\<close>, a file that the parser rejects under
  \<^verbatim>\<open>broken.pdf\<close> and a configuration under \<^verbatim>\<open>config.json\<close>; the S3 storage holds one
  object. \<open>scraper p M b\<close> is the object that \<^verbatim>\<open>__init__\<close> leaves for the path \<open>p\<close>, the
  configuration \<open>M\<close> and the flag \<open>b\<close>.
\<close>

definition initial :: process where
  "initial = \<lparr>log_records = [], open_files = []\<rparr>"

definition example_world :: world where
  "example_world =
     \<lparr>fs = (\<lambda>p. if p = str ''docs/report.pdf'' then Some (File (str ''%PDF report''))
                else if p = str ''broken.pdf'' then Some (File (str ''garbage''))
                else if p = str ''config.json'' then Some (File (str ''{Dr.: Dr}''))
                else None),
      s3_objects =
        (\<lambda>p. if p = str ''s3://bucket/report.pdf'' then Some (str ''%PDF report'') else None),
      slate3k_PDF =
        (\<lambda>b. if b = str ''%PDF report''
             then Some \<lparr>pdf_len = 2,
                        pdf_pages = [str ''  Dr. Smith arrived.  '', str ''Page 2'']\<rparr>
             else None),
      json_load =
        (\<lambda>b. if b = str ''{Dr.: Dr}'' then Some [(str ''Dr.'', str ''Dr'')] else None)\<rparr>"

definition scraper :: "pystr \<Rightarrow> mapping \<Rightarrow> bool \<Rightarrow> DocumentScraper" where
  "scraper p M b = \<lparr>path = p, open_json = M, from_s3_bucket = b\<rparr>"

text \<open>
  The same environment with one more local file, \<^verbatim>\<open>a.json.bak\<close>, a copy of the
  configuration under a name that is not the name of a \<^verbatim>\<open>.json\<close> file.
\<close>

definition backup_world :: world where
  "backup_world =
     example_world\<lparr>fs := \<lambda>p. if p = str ''a.json.bak'' then Some (File (str ''{Dr.: Dr}''))
                               else fs example_world p\<rparr>"


section \<open>Strings: what replacing and stripping do\<close>

lemma contains_iff: "contains t sub \<longleftrightarrow> (\<exists>p s. t = p @ sub @ s)"
proof (induction t)
  case Nil
  then show ?case by auto
next
  case (Cons c cs)
  show ?case
  proof
    assume "contains (c # cs) sub"
    then consider "prefix sub (c # cs)" | "contains cs sub" by auto
    then show "\<exists>p s. c # cs = p @ sub @ s"
    proof cases
      case 1
      then obtain s where "c # cs = sub @ s" by (auto simp: prefix_def)
      then have "c # cs = [] @ sub @ s" by simp
      then show ?thesis by blast
    next
      case 2
      with Cons.IH obtain p s where "cs = p @ sub @ s" by blast
      then have "c # cs = (c # p) @ sub @ s" by simp
      then show ?thesis by blast
    qed
  next
    assume "\<exists>p s. c # cs = p @ sub @ s"
    then obtain p s where ps: "c # cs = p @ sub @ s" by blast
    show "contains (c # cs) sub"
    proof (cases p)
      case Nil
      with ps have "prefix sub (c # cs)" by (simp add: prefix_def)
      then show ?thesis by simp
    next
      case (Cons a p')
      with ps have "cs = p' @ sub @ s" by simp
      with Cons.IH have "contains cs sub" by blast
      then show ?thesis by simp
    qed
  qed
qed




lemma strip_eq_trim: "strip T = trim T"
proof -
  define l where "l = takeWhile isspace T"
  define r where "r = dropWhile isspace T"
  have T: "T = l @ r" by (simp add: l_def r_def)
  have l: "\<forall>x\<in>set l. isspace x" by (auto simp: l_def dest: set_takeWhileD)
  show ?thesis
  proof (cases r)
    case Nil
    then have all: "\<forall>x\<in>set T. isspace x" by (simp add: r_def)
    then have "\<forall>x\<in>set (rev T). isspace x" by simp
    then have d1: "dropWhile isspace (rev T) = []" by (simp only: dropWhile_eq_Nil_conv)
    from all have d2: "dropWhile isspace T = []" by simp
    show ?thesis unfolding strip_def trim_def d1 d2 by simp
  next
    case (Cons a r')
    then have "\<not> isspace (hd r)"
      by (metis r_def hd_dropWhile list.distinct(1))
    with Cons have a: "\<not> isspace a" by simp
    have "rev T = rev r' @ a # rev l" by (simp add: T Cons)
    then have "dropWhile isspace (rev T) = dropWhile isspace (rev r') @ a # rev l"
      using a by (simp add: dropWhile_append3)
    then have "rev (dropWhile isspace (rev T)) = l @ a # rev (dropWhile isspace (rev r'))"
      by simp
    then have 1: "trim T = a # rev (dropWhile isspace (rev r'))"
      using l a by (simp add: trim_def dropWhile_append)
    have "dropWhile isspace (rev r) = dropWhile isspace (rev r') @ [a]"
      using a by (simp add: Cons dropWhile_append3)
    then have 2: "strip T = a # rev (dropWhile isspace (rev r'))"
      by (simp add: strip_def r_def [symmetric])
    from 1 2 show ?thesis by simp
  qed
qed


lemma clean_loop_foldl: "clean_loop M T = applyReplacements T M"
  unfolding applyReplacements_def by (induction M arbitrary: T) auto


text \<open>
  What \<^const>\<open>strip\<close> removes is whitespace, on both sides, and what it leaves neither
  starts nor ends with whitespace.
\<close>

lemma strip_decomposition:
  "T = takeWhile isspace T @ strip T @ rev (takeWhile isspace (rev (dropWhile isspace T)))"
proof -
  let ?d = "dropWhile isspace T"
  have "strip T @ rev (takeWhile isspace (rev ?d)) =
        rev (takeWhile isspace (rev ?d) @ dropWhile isspace (rev ?d))"
    by (simp only: strip_def rev_append)
  also have "\<dots> = ?d"
    by (simp only: takeWhile_dropWhile_id rev_rev_ident)
  finally have "takeWhile isspace T @ strip T @ rev (takeWhile isspace (rev ?d)) =
                takeWhile isspace T @ ?d"
    by simp
  then show ?thesis by simp
qed

lemma strip_no_leading_space: "strip T \<noteq> [] \<Longrightarrow> \<not> isspace (hd (strip T))"
  unfolding strip_eq_trim trim_def by (rule hd_dropWhile)

lemma strip_no_trailing_space: "strip T \<noteq> [] \<Longrightarrow> \<not> isspace (last (strip T))"
  unfolding strip_def by (simp add: last_rev hd_dropWhile)

text \<open>
  \<^const>\<open>replace\<close> rewrites the leftmost occurrence and goes on behind it: when \<open>old\<close>
  does not occur in \<open>p\<close> followed by all of \<open>old\<close> but its last character, the
  occurrence behind \<open>p\<close> is the first one.
\<close>

lemma prefix_inside:
  assumes "prefix old (p @ old @ r)" and "p \<noteq> []"
  shows "prefix old (p @ butlast old)"
proof (cases old)
  case Nil
  then show ?thesis by simp
next
  case (Cons k ks)
  then have "old = butlast old @ [last old]" by simp
  then have "p @ old @ r = (p @ butlast old) @ (last old # r)"
    by (metis append.assoc append_Cons append_Nil)
  then have "prefix (p @ butlast old) (p @ old @ r)" by (metis prefixI)
  moreover have "length old \<le> length (p @ butlast old)"
    using assms(2) Cons by (cases p) auto
  ultimately show ?thesis using assms(1) by (rule prefix_length_prefix [rotated])
qed

lemma contains_prefix: "prefix sub t \<Longrightarrow> contains t sub"
  by (cases t) auto

lemma replace_nonempty_leftmost:
  assumes old: "old = k # ks"
  shows "\<not> contains (p @ butlast old) old \<Longrightarrow>
         replace_nonempty (p @ old @ r) k ks new = p @ new @ replace_nonempty r k ks new"
proof (induction p)
  case Nil
  show ?case by (simp add: old)
next
  case (Cons c p)
  have "\<not> prefix old ((c # p) @ old @ r)"
  proof
    assume "prefix old ((c # p) @ old @ r)"
    then have "prefix old ((c # p) @ butlast old)"
      by (rule prefix_inside) simp
    then have "contains ((c # p) @ butlast old) old"
      by (rule contains_prefix)
    with Cons.prems show False by simp
  qed
  then have no: "\<not> (c = k \<and> prefix ks (p @ old @ r))"
    by (auto simp: old)
  from Cons.prems have "\<not> contains (p @ butlast old) old"
    by simp
  then have IH: "replace_nonempty (p @ old @ r) k ks new =
                   p @ new @ replace_nonempty r k ks new"
    by (rule Cons.IH)
  have "replace_nonempty ((c # p) @ old @ r) k ks new =
        c # replace_nonempty (p @ old @ r) k ks new"
    using no by auto
  with IH show ?case by simp
qed

lemma replace_leftmost:
  assumes "old \<noteq> []" and "\<not> contains (p @ butlast old) old"
  shows "replace (p @ old @ r) old new = p @ new @ replace r old new"
proof -
  from assms(1) obtain k ks where old: "old = k # ks" by (cases old) auto
  from old assms(2) have "replace_nonempty (p @ old @ r) k ks new =
             p @ new @ replace_nonempty r k ks new"
    by (rule replace_nonempty_leftmost)
  then show ?thesis by (simp add: replace_def old)
qed


section \<open>The iteration over pairs and pages\<close>


lemma pages_loop_series:
  "fst (pages_loop self pdf_name i pages ds st) =
     (if pages = [] then ds else pd_Series (vals ds @ map (clean_text self) pages))"
proof (induction pages arbitrary: i ds st)
  case Nil
  then show ?case by simp
next
  case (Cons page rest)
  then show ?case by (simp add: Let_def append_def pd_Series_def)
qed

lemma pages_loop_open_files:
  "open_files (snd (pages_loop self pdf_name i pages ds st)) = open_files st"
  by (induction pages arbitrary: i ds st) (simp_all add: Let_def logger_def)

lemma pages_loop_log:
  "log_records (snd (pages_loop self pdf_name i pages ds st)) =
     log_records st @ map (\<lambda>j. (DEBUG, ReadingPage (i + j + 1) pdf_name)) [0..<length pages]"
proof (induction pages arbitrary: i ds st)
  case Nil
  then show ?case by simp
next
  case (Cons page rest)
  have "[0..<Suc (length rest)] = 0 # map Suc [0..<length rest]"
    by (simp add: upt_conv_Cons map_Suc_upt del: upt_Suc)
  then show ?case
    using Cons by (simp add: Let_def logger_def comp_def del: upt_Suc)
qed

lemma text_to_series_parsed:
  assumes "fs w (path self) = Some (File b)"
      and "slate3k_PDF w b = Some reader"
  shows "text_to_series_of_pages w self pdf_name st =
           (Inr (pd_Series (map (clean_text self) (pdf_pages reader)), pdf_len reader),
            close_file (path self)
              (snd (pages_loop self pdf_name 0 (pdf_pages reader) (pd_Series [])
                     (st\<lparr>open_files := open_files st @ [path self]\<rparr>))))"
proof -
  have "fst (pages_loop self pdf_name 0 (pdf_pages reader) (pd_Series [])
               (st\<lparr>open_files := open_files st @ [path self]\<rparr>)) =
        pd_Series (map (clean_text self) (pdf_pages reader))"
    by (simp add: pages_loop_series pd_Series_def)
  then show ?thesis
    using assms
    by (simp add: text_to_series_of_pages_def open_file_def split_beta Let_def)
qed

text \<open>After a call that returned, the handle it opened is closed again.\<close>

lemma text_to_series_closes_after_success:
  assumes "fst (text_to_series_of_pages w self pdf_name st) = Inr res"
  shows "open_files (snd (text_to_series_of_pages w self pdf_name st)) =
           remove1 (path self) (open_files st @ [path self])"
  using assms
  by (auto simp: text_to_series_of_pages_def open_file_def split_beta Let_def close_file_def
      pages_loop_open_files split: option.splits fs_entry.splits)

text \<open>
  Neither the attribute \<^verbatim>\<open>from_s3_bucket\<close> nor the S3 storage has any influence on what
  the methods do.
\<close>

lemma clean_text_ignores_flag:
  "clean_text (self\<lparr>from_s3_bucket := b\<rparr>) = clean_text self"
  by (rule ext) (simp add: clean_text_def)

lemma pages_loop_ignores_flag:
  "pages_loop (self\<lparr>from_s3_bucket := b\<rparr>) pdf_name i pages ds st =
   pages_loop self pdf_name i pages ds st"
  by (induction pages arbitrary: i ds st) (simp_all add: clean_text_ignores_flag)

lemma text_to_series_ignores_s3:
  "text_to_series_of_pages (w\<lparr>s3_objects := objs\<rparr>) (self\<lparr>from_s3_bucket := b\<rparr>) pdf_name st =
   text_to_series_of_pages w self pdf_name st"
  by (auto simp: text_to_series_of_pages_def open_file_def pages_loop_ignores_flag
      split: option.splits fs_entry.splits)

lemma document_corpus_ignores_s3:
  "document_corpus_to_pandas_df (w\<lparr>s3_objects := objs\<rparr>) (self\<lparr>from_s3_bucket := b\<rparr>) st =
   document_corpus_to_pandas_df w self st"
  by (simp add: document_corpus_to_pandas_df_def os_path_exists_def text_to_series_ignores_s3)

text \<open>\<^const>\<open>scraper\<close> is what the constructor returns when the configuration loads.\<close>

lemma init_scraper:
  "read_config w json_filename st = (Inr M, st') \<Longrightarrow>
   init w p json_filename b st = (Inr (scraper p M b), st')"
  by (simp add: init_def scraper_def)


section \<open>Cleaning a page\<close>

text \<open>
  C1. For every configuration mapping and every page text, \<^verbatim>\<open>_clean_text\<close> returns the
  text with the mapping's pairs applied as literal replacements in the mapping's
  order, trimmed of leading and trailing whitespace; with the empty mapping it returns
  the trimmed text.
\<close>

theorem clean_text_is_trim_of_replacements:
  "clean_text self T = trim (applyReplacements T (open_json self)) \<and>
   (open_json self = [] \<longrightarrow> clean_text self T = trim T)"
  by (simp add: clean_text_def clean_loop_foldl strip_eq_trim) (simp add: applyReplacements_def)

text \<open>
  The scenario of the specification: the mapping \<^verbatim>\<open>{"Dr.": "Dr"}\<close> on the page
  \<^verbatim>\<open>"  Dr. Smith arrived.  "\<close>, and the same page under the empty mapping.
\<close>

theorem clean_text_is_trim_of_replacements_witness:
  "clean_text (scraper [] [(str ''Dr.'', str ''Dr'')] False) (str ''  Dr. Smith arrived.  '') =
     str ''Dr Smith arrived.'' \<and>
   trim (applyReplacements (str ''  Dr. Smith arrived.  '') [(str ''Dr.'', str ''Dr'')]) =
     str ''Dr Smith arrived.'' \<and>
   clean_text (scraper [] [] False) (str ''  Dr. Smith arrived.  '') =
     str ''Dr. Smith arrived.'' \<and>
   trim (str ''  Dr. Smith arrived.  '') = str ''Dr. Smith arrived.''"
  using clean_text_is_trim_of_replacements
      [of "scraper [] [(str ''Dr.'', str ''Dr'')] False" "str ''  Dr. Smith arrived.  ''"]
    clean_text_is_trim_of_replacements
      [of "scraper [] [] False" "str ''  Dr. Smith arrived.  ''"]
  by (simp add: scraper_def str_def trim_def applyReplacements_def replace_def isspace_def)


text \<open>
  The order of the pairs breaks it as well: in \<^verbatim>\<open>{"b": "c", "a": "b"}\<close> no pair leads
  back to itself, the page \<^verbatim>\<open>"a"\<close> is cleaned to \<^verbatim>\<open>"b"\<close>, and \<^verbatim>\<open>"b"\<close> to \<^verbatim>\<open>"c"\<close>.
\<close>

lemma clean_text_order_of_pairs:
  "no_replacement_cycles [(str ''b'', str ''c''), (str ''a'', str ''b'')] \<and>
   clean_text (scraper [] [(str ''b'', str ''c''), (str ''a'', str ''b'')] False) (str ''a'') =
     str ''b'' \<and>
   clean_text (scraper [] [(str ''b'', str ''c''), (str ''a'', str ''b'')] False) (str ''b'') =
     str ''c''"
  by (simp add: no_replacement_cycles_def feeds_def str_def clean_text_def scraper_def
      replace_def strip_def isspace_def)




section \<open>Extracting the pages\<close>

text \<open>
  C2. For a document that the parser accepts, reporting the page count \<open>N\<close> and
  yielding \<open>N\<close> page texts, \<^verbatim>\<open>_text_to_series_of_pages\<close> returns the series of the \<open>N\<close>
  cleaned page texts, in page order, together with the page count \<open>N\<close>.
\<close>

theorem extract_pages_length:
  assumes "fs w (path self) = Some (File b)"
      and "slate3k_PDF w b = Some reader"
      and "pdf_len reader = N"
      and "length (pdf_pages reader) = N"
  shows "fst (text_to_series_of_pages w self pdf_name st) =
           Inr (pd_Series (map (clean_text self) (pdf_pages reader)), N) \<and>
         length (vals (pd_Series (map (clean_text self) (pdf_pages reader)))) = N"
  using assms by (simp add: text_to_series_parsed pd_Series_def)

theorem extract_pages_length_witness:
  "fst (text_to_series_of_pages example_world
          (scraper (str ''docs/report.pdf'') [(str ''Dr.'', str ''Dr'')] False) [] initial) =
     Inr (\<lparr>name = None, vals = [str ''Dr Smith arrived.'', str ''Page 2'']\<rparr>, 2)"
  using extract_pages_length [of example_world
      "scraper (str ''docs/report.pdf'') [(str ''Dr.'', str ''Dr'')] False"
      "str ''%PDF report''"
      "\<lparr>pdf_len = 2, pdf_pages = [str ''  Dr. Smith arrived.  '', str ''Page 2'']\<rparr>"
      2 "[]" initial]
  by (simp add: example_world_def scraper_def str_def pd_Series_def clean_text_def
      replace_def strip_def isspace_def)

text \<open>
  C10. The argument \<^verbatim>\<open>pdf_name\<close> of \<^verbatim>\<open>_text_to_series_of_pages\<close> has no influence on the
  result (series, page count, or the exception raised) nor on the files left open: the
  file opened is the one at \<^verbatim>\<open>self.path\<close>, and the argument reaches the log records
  only.
\<close>

theorem pdf_name_only_logged:
  "fst (text_to_series_of_pages w self pdf_name st) =
     fst (text_to_series_of_pages w self pdf_name' st) \<and>
   open_files (snd (text_to_series_of_pages w self pdf_name st)) =
     open_files (snd (text_to_series_of_pages w self pdf_name' st))"
  by (auto simp: text_to_series_of_pages_def open_file_def split_beta Let_def close_file_def
      pages_loop_series pages_loop_open_files split: option.splits fs_entry.splits)

theorem pdf_name_only_logged_witness:
  "fst (text_to_series_of_pages example_world (scraper (str ''docs/report.pdf'') [] False)
          (str ''a.pdf'') initial) =
   fst (text_to_series_of_pages example_world (scraper (str ''docs/report.pdf'') [] False)
          (str ''b.pdf'') initial) \<and>
   log_records (snd (text_to_series_of_pages example_world
          (scraper (str ''docs/report.pdf'') [] False) (str ''a.pdf'') initial)) =
     [(DEBUG, ReadingPage 1 (str ''a.pdf'')), (DEBUG, ReadingPage 2 (str ''a.pdf''))] \<and>
   log_records (snd (text_to_series_of_pages example_world
          (scraper (str ''docs/report.pdf'') [] False) (str ''b.pdf'') initial)) =
     [(DEBUG, ReadingPage 1 (str ''b.pdf'')), (DEBUG, ReadingPage 2 (str ''b.pdf''))]"
  using pdf_name_only_logged [of example_world "scraper (str ''docs/report.pdf'') [] False"
      "str ''a.pdf''" initial "str ''b.pdf''"]
  by (simp add: text_to_series_of_pages_def open_file_def example_world_def scraper_def
      str_def initial_def Let_def logger_def close_file_def)

text \<open>
  C5. The claim: on every path that opened the document, the handle is closed before
  the call ends. The code closes it with \<^verbatim>\<open>pdf.close()\<close> in front of the \<^verbatim>\<open>return\<close>
  only. For the file \<^verbatim>\<open>broken.pdf\<close>, which the parser rejects, the call ends with the
  parser's exception and the handle still open.
\<close>

theorem handle_left_open_on_parse_failure:
  "text_to_series_of_pages example_world (scraper (str ''broken.pdf'') [] False)
     (str ''broken.pdf'') initial =
     (Inl DocumentParseError, \<lparr>log_records = [], open_files = [str ''broken.pdf'']\<rparr>)"
  by (simp add: text_to_series_of_pages_def open_file_def example_world_def scraper_def
      str_def initial_def)


section \<open>Building the table\<close>

text \<open>
  C3. When the path does not exist, \<^verbatim>\<open>document_corpus_to_pandas_df\<close> hands one warning
  to the logger and returns the empty data frame; it raises nothing and changes nothing
  else.
\<close>

theorem missing_path_gives_empty_table:
  assumes "\<not> os_path_exists w (path self)"
  shows "document_corpus_to_pandas_df w self st =
           (Inr pd_DataFrame, logger WARNING (NotScraped (path self)) st)"
  using assms by (simp add: document_corpus_to_pandas_df_def)

theorem missing_path_gives_empty_table_witness:
  "\<not> os_path_exists example_world (str ''absent.pdf'') \<and>
   document_corpus_to_pandas_df example_world (scraper (str ''absent.pdf'') [] False) initial =
     (Inr [], \<lparr>log_records = [(WARNING, NotScraped (str ''absent.pdf''))], open_files = []\<rparr>)"
  using missing_path_gives_empty_table
    [of example_world "scraper (str ''absent.pdf'') [] False" initial]
  by (simp add: os_path_exists_def example_world_def scraper_def str_def initial_def
      logger_def pd_DataFrame_def)

text \<open>
  C4. When the path holds a file that the parser rejects, \<^verbatim>\<open>_text_to_series_of_pages\<close>
  ends with the parser's exception, and \<^verbatim>\<open>document_corpus_to_pandas_df\<close> ends with the
  same exception instead of returning a data frame.
\<close>

theorem parse_failure_propagates:
  assumes "fs w (path self) = Some (File b)"
      and "slate3k_PDF w b = None"
  shows "fst (text_to_series_of_pages w self pdf_name st) = Inl DocumentParseError \<and>
         fst (document_corpus_to_pandas_df w self st) = Inl DocumentParseError"
  using assms
  by (simp add: document_corpus_to_pandas_df_def text_to_series_of_pages_def open_file_def
      os_path_exists_def Let_def)

theorem parse_failure_propagates_witness:
  "fs example_world (str ''broken.pdf'') = Some (File (str ''garbage'')) \<and>
   slate3k_PDF example_world (str ''garbage'') = None \<and>
   fst (text_to_series_of_pages example_world (scraper (str ''broken.pdf'') [] False) []
          initial) = Inl DocumentParseError \<and>
   fst (document_corpus_to_pandas_df example_world (scraper (str ''broken.pdf'') [] False)
          initial) = Inl DocumentParseError"
  using parse_failure_propagates [of example_world "scraper (str ''broken.pdf'') [] False"
      "str ''garbage''" "[]" initial]
  by (simp add: example_world_def scraper_def str_def)

text \<open>
  C6. The claim: the key of the table's column is the base filename without the
  \<^verbatim>\<open>.pdf\<close> extension. The code takes the whole of \<^verbatim>\<open>self.path\<close> and deletes every
  \<^verbatim>\<open>.pdf\<close> in it. For the path \<^verbatim>\<open>docs/report.pdf\<close> the key is \<^verbatim>\<open>docs/report\<close>, where the
  document identifier is \<^verbatim>\<open>report\<close>.
\<close>

theorem column_key_is_full_path:
  "fst (document_corpus_to_pandas_df example_world
          (scraper (str ''docs/report.pdf'') [(str ''Dr.'', str ''Dr'')] False) initial) =
     Inr [(Some (str ''docs/report''),
           [Some (str ''Dr Smith arrived.''), Some (str ''Page 2'')])] \<and>
   document_identifier (str ''docs/report.pdf'') = str ''report''"
  by (simp add: document_corpus_to_pandas_df_def os_path_exists_def text_to_series_of_pages_def
      open_file_def example_world_def scraper_def str_def initial_def Let_def logger_def
      pd_Series_def append_def clean_text_def replace_def strip_def isspace_def close_file_def
      pd_concat_def pd_DataFrame_def nrows_def pad_def rename_def document_identifier_def
      basename_def suffix_def)

text \<open>
  C9. The claim: with \<^verbatim>\<open>from_s3_bucket\<close> set, the document is read from the S3 storage.
  The code reads the local file system whatever the flag says. For the path
  \<^verbatim>\<open>s3://bucket/report.pdf\<close>, an object of the S3 storage and no local file, the call
  with the flag set returns the empty data frame and the warning that the path was not
  scraped, as the call with the flag unset does.
\<close>

theorem from_s3_bucket_flag_ignored:
  "s3_objects example_world (str ''s3://bucket/report.pdf'') = Some (str ''%PDF report'') \<and>
   document_corpus_to_pandas_df example_world
     (scraper (str ''s3://bucket/report.pdf'') [] True) initial =
     (Inr [], \<lparr>log_records = [(WARNING, NotScraped (str ''s3://bucket/report.pdf''))],
               open_files = []\<rparr>) \<and>
   document_corpus_to_pandas_df example_world
     (scraper (str ''s3://bucket/report.pdf'') [] True) initial =
   document_corpus_to_pandas_df example_world
     (scraper (str ''s3://bucket/report.pdf'') [] False) initial"
  by (simp add: document_corpus_to_pandas_df_def os_path_exists_def example_world_def
      scraper_def str_def initial_def logger_def pd_DataFrame_def)


section \<open>Reading the configuration\<close>

text \<open>
  What the assertion of \<^verbatim>\<open>_read_config\<close> tests is whether \<^verbatim>\<open>.json\<close> occurs anywhere in
  the name: the call ends with the assertion's failure exactly when it does not.
\<close>

lemma read_config_format_check:
  "(\<not> contains filename (str ''.json'') \<longrightarrow>
      fst (read_config w (Some filename) st) = Inl ConfigFormatError) \<and>
   (contains filename (str ''.json'') \<longrightarrow>
      fst (read_config w (Some filename) st) \<noteq> Inl ConfigFormatError)"
  by (auto simp: read_config_def open_file_def Let_def split: option.splits fs_entry.splits)

lemma read_config_format_check_example:
  "\<not> contains (str ''config.txt'') (str ''.json'') \<and>
   fst (read_config example_world (Some (str ''config.txt'')) initial) = Inl ConfigFormatError \<and>
   contains (str ''config.json'') (str ''.json'') \<and>
   fst (read_config example_world (Some (str ''config.json'')) initial) =
     Inr [(str ''Dr.'', str ''Dr'')]"
  using read_config_format_check [of "str ''config.txt''" example_world initial]
    read_config_format_check [of "str ''config.json''" example_world initial]
  by (simp add: read_config_def open_file_def example_world_def str_def Let_def)

text \<open>
  A name that ends in \<^verbatim>\<open>.json\<close> contains \<^verbatim>\<open>.json\<close>, so the name of a \<^verbatim>\<open>.json\<close> file
  never fails the assertion.
\<close>

lemma contains_suffix: "suffix sub t \<Longrightarrow> contains t sub"
proof -
  assume "suffix sub t"
  then obtain zs where "t = zs @ sub" by (auto simp: suffix_def)
  then have "t = zs @ sub @ []" by simp
  then show ?thesis unfolding contains_iff by blast
qed

lemma read_config_json_suffix_accepted:
  assumes "indicates_json filename"
  shows "fst (read_config w (Some filename) st) \<noteq> Inl ConfigFormatError"
proof -
  from assms have "contains filename (str ''.json'')"
    unfolding indicates_json_def by (rule contains_suffix)
  then show ?thesis
    by (auto simp: read_config_def open_file_def Let_def split: option.splits fs_entry.splits)
qed

text \<open>
  C7. The claim: \<^verbatim>\<open>_read_config\<close> fails with the format error for every given name
  that does not indicate a JSON-typed resource, and never fails with it for a name that
  does. The assertion tests for \<^verbatim>\<open>.json\<close> anywhere in the name where its message speaks
  of a \<^verbatim>\<open>.json\<close> file. The name \<^verbatim>\<open>a.json.bak\<close> is not the name of a \<^verbatim>\<open>.json\<close> file, and
  the call does not fail with the format error, whatever the environment: where the
  file exists and holds a dictionary, the call returns the dictionary.
\<close>

theorem read_config_accepts_non_json_name:
  "\<not> indicates_json (str ''a.json.bak'') \<and>
   read_config backup_world (Some (str ''a.json.bak'')) initial =
     (Inr [(str ''Dr.'', str ''Dr'')],
      \<lparr>log_records = [(INFO, ReadingJson (str ''a.json.bak''))], open_files = []\<rparr>) \<and>
   fst (read_config w (Some (str ''a.json.bak'')) st) \<noteq> Inl ConfigFormatError"
  by (auto simp: indicates_json_def suffix_to_prefix read_config_def open_file_def
      backup_world_def example_world_def str_def initial_def Let_def logger_def close_file_def
      split: option.splits fs_entry.splits)

end
